theory Spec2Isabelle
  imports Main "HOL-Library.Word"
begin

unbundle bit_operations_syntax

section \<open>Byte-addressed memory\<close>

text \<open>
  The allocator of \<^verbatim>\<open>alloc.c\<close> keeps all of its bookkeeping inside the heap it hands
  out: a block's header and the caller's payload share the same bytes. The model
  therefore uses one flat store from 64-bit addresses to bytes; \<open>size_t\<close> and pointers are
  64-bit words, read and written little-endian, eight bytes at a time.
\<close>

type_synonym addr = "64 word"
type_synonym byte = "8 word"
type_synonym memory = "addr \<Rightarrow> byte"

abbreviation NULL :: addr where
  "NULL \<equiv> 0"

definition load64 :: "memory \<Rightarrow> addr \<Rightarrow> 64 word" where
  "load64 m a =
     ucast (m a) OR push_bit 8 (ucast (m (a + 1))) OR push_bit 16 (ucast (m (a + 2)))
     OR push_bit 24 (ucast (m (a + 3))) OR push_bit 32 (ucast (m (a + 4)))
     OR push_bit 40 (ucast (m (a + 5))) OR push_bit 48 (ucast (m (a + 6)))
     OR push_bit 56 (ucast (m (a + 7)))"

definition store64 :: "memory \<Rightarrow> addr \<Rightarrow> 64 word \<Rightarrow> memory" where
  "store64 m a v = (\<lambda>x. if x - a < 8 then ucast (drop_bit (8 * unat (x - a)) v) else m x)"

section \<open>The block header\<close>

text \<open>
  Modelled from the spec: the header \<^verbatim>\<open>alloc.h\<close>, which declares \<open>free_block\<close>, is not
  among the sources. The spec's data model gives a fixed-size header with the payload
  capacity \<open>size\<close> and the free-list link \<open>next\<close>; the code reads the capacity of an
  allocated block at \<open>ptr - sizeof(size_t)\<close>, so \<open>size\<close> is the first field. On an LP64
  target this is \<open>size\<close> at offset 0, \<open>next\<close> at offset 8, \<open>sizeof(free_block) = 16\<close> and
  \<open>sizeof(size_t) = 8\<close>.
\<close>

definition ALIGNMENT :: "64 word" where
  "ALIGNMENT = 16"

definition sizeof_size_t :: "64 word" where
  "sizeof_size_t = 8"

definition sizeof_free_block :: "64 word" where
  "sizeof_free_block = 16"

definition get_size :: "memory \<Rightarrow> addr \<Rightarrow> 64 word" where
  "get_size m b = load64 m b"

definition get_next :: "memory \<Rightarrow> addr \<Rightarrow> addr" where
  "get_next m b = load64 m (b + 8)"

definition set_size :: "memory \<Rightarrow> addr \<Rightarrow> 64 word \<Rightarrow> memory" where
  "set_size m b v = store64 m b v"

definition set_next :: "memory \<Rightarrow> addr \<Rightarrow> addr \<Rightarrow> memory" where
  "set_next m b v = store64 m (b + 8) v"

section \<open>Allocator state and the heap-growth primitive\<close>

text \<open>
  The process-wide state: the static \<open>HEAD\<close> of the free list, the memory, and the
  operating system's side of \<open>sbrk\<close>, namely the current program break \<open>brk\<close> and the
  highest break \<open>brk_limit\<close> the system is willing to grant.
\<close>

record alloc_state =
  HEAD :: addr
  brk :: addr
  brk_limit :: addr
  mem :: memory

text \<open>
  Modelled from the spec: \<open>sbrk\<close> is the operating system's primitive, not code of the
  repository. Per the spec's collaborator interface it extends the data segment by the
  given byte delta and returns the previous boundary, or signals failure by the
  reserved sentinel \<open>(void *) -1\<close> and changes nothing. The request is granted exactly
  when the new break stays within \<open>brk_limit\<close>.
\<close>

definition sbrk :: "alloc_state \<Rightarrow> 64 word \<Rightarrow> addr \<times> alloc_state" where
  "sbrk s increment =
     (if unat (brk s) + unat increment \<le> unat (brk_limit s)
      then (brk s, s\<lparr>brk := brk s + increment\<rparr>)
      else (- 1, s))"

section \<open>The C library's memset and memcpy\<close>

text \<open>
  The two C library routines the allocator calls. The program owns the data segment up
  to the program break; a region of \<open>n > 0\<close> bytes at \<open>p\<close> lies in it when it ends at or below
  the break (\<open>in_heap\<close>). \<open>memset s p c n\<close> sets the \<open>n\<close> bytes from \<open>p\<close> to \<open>c\<close>;
  \<open>memcpy s dst src n\<close> copies \<open>n\<close> bytes from \<open>src\<close> to \<open>dst\<close> (all source bytes are read
  from the memory before the call, as for regions that do not overlap). A call that
  touches a byte at or above the break is outside every object of the program: the
  behaviour is undefined, in practice the process faults, and the call does not return.
  That is the value \<open>None\<close>.
\<close>

definition in_heap :: "alloc_state \<Rightarrow> addr \<Rightarrow> 64 word \<Rightarrow> bool" where
  "in_heap s p n \<longleftrightarrow> n = 0 \<or> unat p + unat n \<le> unat (brk s)"

definition memset :: "alloc_state \<Rightarrow> addr \<Rightarrow> byte \<Rightarrow> 64 word \<Rightarrow> alloc_state option" where
  "memset s p c n =
     (if in_heap s p n then Some (s\<lparr>mem := (\<lambda>x. if x - p < n then c else mem s x)\<rparr>)
      else None)"

definition memcpy :: "alloc_state \<Rightarrow> addr \<Rightarrow> addr \<Rightarrow> 64 word \<Rightarrow> alloc_state option" where
  "memcpy s dst src n =
     (if in_heap s dst n \<and> in_heap s src n
      then Some (s\<lparr>mem := (\<lambda>x. if x - dst < n then mem s (src + (x - dst)) else mem s x)\<rparr>)
      else None)"

section \<open>The allocator\<close>

subsection \<open>split\<close>

text \<open>The parameter \<open>size\<close> of the source is a C \<open>int\<close> (here \<open>isize\<close>, as \<open>size\<close> is
  taken in HOL); it is converted to \<open>size_t\<close> (sign-extended) wherever it meets a
  \<open>size_t\<close> or a pointer. Elsewhere the source's \<open>size\<close> is written \<open>sz\<close> and its \<open>curr\<close> is written \<open>cur\<close>.\<close>

definition split :: "alloc_state \<Rightarrow> addr \<Rightarrow> 32 word \<Rightarrow> addr \<times> alloc_state" where
  "split s block isize =
     (let sz = (scast isize :: 64 word) in
      if get_size (mem s) block < sz + sizeof_free_block then (NULL, s)
      else
        let split_pnt = block + sz + sizeof_free_block;
            new_block = split_pnt;
            m1 = set_size (mem s) new_block (get_size (mem s) block - sz - sizeof_free_block);
            m2 = set_next m1 new_block (get_next m1 block);
            m3 = set_size m2 block sz
        in (block, s\<lparr>mem := m3\<rparr>))"

subsection \<open>find_prev, find_next, remove_free_block\<close>

text \<open>The loops walk the \<open>next\<close> links found in memory. On a cyclic list they do not
  return; that is the value \<open>None\<close>.\<close>

partial_function (option) find_prev_loop :: "memory \<Rightarrow> addr \<Rightarrow> addr \<Rightarrow> addr option" where
  "find_prev_loop m block cur =
     (if cur = NULL then Some NULL
      else if cur + get_size m cur + sizeof_free_block = block then Some cur
      else find_prev_loop m block (get_next m cur))"

definition find_prev :: "alloc_state \<Rightarrow> addr \<Rightarrow> addr option" where
  "find_prev s block = find_prev_loop (mem s) block (HEAD s)"

partial_function (option) find_next_loop :: "memory \<Rightarrow> addr \<Rightarrow> addr \<Rightarrow> addr option" where
  "find_next_loop m block_end cur =
     (if cur = NULL then Some NULL
      else if cur = block_end then Some cur
      else find_next_loop m block_end (get_next m cur))"

definition find_next :: "alloc_state \<Rightarrow> addr \<Rightarrow> addr option" where
  "find_next s block =
     (let block_end = block + get_size (mem s) block + sizeof_free_block
      in find_next_loop (mem s) block_end (HEAD s))"

partial_function (option) remove_loop :: "memory \<Rightarrow> addr \<Rightarrow> addr \<Rightarrow> memory option" where
  "remove_loop m block cur =
     (if cur = NULL then Some m
      else if get_next m cur = block then Some (set_next m cur (get_next m block))
      else remove_loop m block (get_next m cur))"

definition remove_free_block :: "alloc_state \<Rightarrow> addr \<Rightarrow> alloc_state option" where
  "remove_free_block s block =
     (if HEAD s = block then Some (s\<lparr>HEAD := get_next (mem s) block\<rparr>)
      else map_option (\<lambda>m. s\<lparr>mem := m\<rparr>) (remove_loop (mem s) block (HEAD s)))"

subsection \<open>coalesce\<close>

definition coalesce_prev :: "memory \<Rightarrow> addr \<Rightarrow> addr \<Rightarrow> addr \<times> memory" where
  "coalesce_prev m prev block =
     (if prev \<noteq> NULL then
        let end_of_prev = prev + get_size m prev + sizeof_free_block in
        if end_of_prev = block then
          let m1 = set_size m prev (get_size m prev + (get_size m block + sizeof_free_block));
              m2 = (if get_next m1 prev = block then set_next m1 prev (get_next m1 block) else m1)
          in (prev, m2)
        else (block, m)
      else (block, m))"

definition coalesce_next :: "memory \<Rightarrow> addr \<Rightarrow> addr \<Rightarrow> memory" where
  "coalesce_next m block next =
     (if next \<noteq> NULL then
        let end_of_block = block + get_size m block + sizeof_free_block in
        if end_of_block = next then
          let m1 = set_size m block (get_size m block + (get_size m next + sizeof_free_block))
          in set_next m1 block (get_next m1 next)
        else m
      else m)"

definition coalesce :: "alloc_state \<Rightarrow> addr \<Rightarrow> (addr \<times> alloc_state) option" where
  "coalesce s block =
     (if block = NULL then Some (NULL, s)
      else
        case find_prev s block of None \<Rightarrow> None
        | Some prev \<Rightarrow>
            (case find_next s block of None \<Rightarrow> None
             | Some next \<Rightarrow>
                 (case coalesce_prev (mem s) prev block of
                    (block1, m1) \<Rightarrow> Some (block1, s\<lparr>mem := coalesce_next m1 block1 next\<rparr>))))"

subsection \<open>do_alloc and tumalloc\<close>

definition do_alloc :: "alloc_state \<Rightarrow> 64 word \<Rightarrow> addr \<times> alloc_state" where
  "do_alloc s sz =
     (case sbrk s sz of (ptr, s1) \<Rightarrow> if ptr = - 1 then (NULL, s1) else (ptr, s1))"

definition align_up :: "64 word \<Rightarrow> 64 word" where
  "align_up sz = (sz + ALIGNMENT - 1) AND NOT (ALIGNMENT - 1)"

text \<open>The first-fit loop of \<open>tumalloc\<close>; it returns the values of \<open>cur\<close> and \<open>prev\<close> at
  the point where the loop is left (\<open>cur = NULL\<close> when no block was taken).\<close>

partial_function (option) first_fit :: "memory \<Rightarrow> 64 word \<Rightarrow> addr \<Rightarrow> addr \<Rightarrow> (addr \<times> addr) option" where
  "first_fit m sz cur prev =
     (if cur = NULL then Some (NULL, prev)
      else if get_size m cur \<ge> sz + sizeof_free_block then Some (cur, prev)
      else first_fit m sz (get_next m cur) cur)"

definition heap_grow :: "alloc_state \<Rightarrow> 64 word \<Rightarrow> addr \<times> alloc_state" where
  "heap_grow s sz =
     (case do_alloc s (sz + sizeof_size_t) of
        (ptr, s1) \<Rightarrow>
          if ptr = NULL then (NULL, s1)
          else (ptr + sizeof_size_t, s1\<lparr>mem := store64 (mem s1) ptr sz\<rparr>))"

definition tumalloc :: "alloc_state \<Rightarrow> 64 word \<Rightarrow> (addr \<times> alloc_state) option" where
  "tumalloc s sz0 =
     (let sz = align_up sz0 in
      case first_fit (mem s) sz (HEAD s) NULL of None \<Rightarrow> None
      | Some (cur, prev) \<Rightarrow>
          if cur \<noteq> NULL then
            Some (cur + sizeof_size_t,
                  if prev \<noteq> NULL then s\<lparr>mem := set_next (mem s) prev (get_next (mem s) cur)\<rparr>
                  else s\<lparr>HEAD := get_next (mem s) cur\<rparr>)
          else Some (heap_grow s sz))"

subsection \<open>tufree, tucalloc, turealloc\<close>

definition tufree :: "alloc_state \<Rightarrow> addr \<Rightarrow> alloc_state option" where
  "tufree s ptr =
     (if ptr = NULL then Some s
      else
        let block = ptr - sizeof_size_t;
            s1 = s\<lparr>mem := set_next (mem s) block (HEAD s)\<rparr>;
            s2 = s1\<lparr>HEAD := block\<rparr>
        in map_option snd (coalesce s2 block))"

text \<open>For \<open>tucalloc\<close> and \<open>turealloc\<close> the value \<open>None\<close> stands for a call that does not return:
  the scan of \<open>tumalloc\<close> or \<open>tufree\<close> runs forever, or \<open>memset\<close> or \<open>memcpy\<close> leaves the
  heap.\<close>

definition tucalloc :: "alloc_state \<Rightarrow> 64 word \<Rightarrow> 64 word \<Rightarrow> (addr \<times> alloc_state) option" where
  "tucalloc s num sz =
     (let total_size = num * sz in
      case tumalloc s total_size of None \<Rightarrow> None
      | Some (ptr, s1) \<Rightarrow>
          if ptr = NULL then Some (NULL, s1)
          else map_option (\<lambda>s2. (ptr, s2)) (memset s1 ptr 0 total_size))"

definition turealloc :: "alloc_state \<Rightarrow> addr \<Rightarrow> 64 word \<Rightarrow> (addr \<times> alloc_state) option" where
  "turealloc s ptr new_size =
     (if ptr = NULL then tumalloc s new_size
      else if new_size = 0 then map_option (\<lambda>s'. (NULL, s')) (tufree s ptr)
      else
        let old_size = load64 (mem s) (ptr - sizeof_size_t) in
        if old_size \<ge> new_size then Some (ptr, s)
        else
          case tumalloc s new_size of None \<Rightarrow> None
          | Some (new_ptr, s1) \<Rightarrow>
              if new_ptr = NULL then Some (NULL, s1)
              else
                case memcpy s1 new_ptr ptr old_size of None \<Rightarrow> None
                | Some s2 \<Rightarrow> map_option (\<lambda>s'. (new_ptr, s')) (tufree s2 ptr))"

section \<open>Reading the free list\<close>

text \<open>\<open>free_path m h xs\<close>: following the \<open>next\<close> links from \<open>h\<close> visits exactly the nodes
  \<open>xs\<close>, in this order, and then reaches \<open>NULL\<close>.\<close>

fun free_path :: "memory \<Rightarrow> addr \<Rightarrow> addr list \<Rightarrow> bool" where
  "free_path m h [] \<longleftrightarrow> h = NULL"
| "free_path m h (x # xs) \<longleftrightarrow> h = x \<and> x \<noteq> NULL \<and> free_path m (get_next m x) xs"

section \<open>Out of memory\<close>

text \<open>An allocation of \<open>n\<close> bytes is out of memory when the first-fit scan leaves the
  loop without a block and \<open>sbrk\<close> answers the request for the rounded size plus the
  size word with its failure sentinel.\<close>

definition out_of_memory :: "alloc_state \<Rightarrow> 64 word \<Rightarrow> bool" where
  "out_of_memory s n \<longleftrightarrow>
     map_option fst (first_fit (mem s) (align_up n) (HEAD s) NULL) = Some NULL \<and>
     fst (sbrk s (align_up n + sizeof_size_t)) = - 1"

section \<open>Example heaps\<close>

text \<open>A fresh process: empty free list, break at \<open>0x1000\<close>, one page of room.\<close>

definition heap0 :: alloc_state where
  "heap0 = \<lparr>HEAD = NULL, brk = 0x1000, brk_limit = 0x2000, mem = (\<lambda>_. 0)\<rparr>"

text \<open>The heap after \<open>tumalloc heap0 1\<close>: one allocated block of capacity 16 at \<open>0x1000\<close>.\<close>

definition one_block :: alloc_state where
  "one_block = \<lparr>HEAD = NULL, brk = 0x1018, brk_limit = 0x2000, mem = store64 (\<lambda>_. 0) 0x1000 16\<rparr>"

text \<open>The same block in a heap that has only 8 bytes of room left.\<close>

definition full_heap :: alloc_state where
  "full_heap = \<lparr>HEAD = NULL, brk = 0x1018, brk_limit = 0x1020, mem = store64 (\<lambda>_. 7) 0x1000 16\<rparr>"

text \<open>A fresh process whose memory holds the byte \<open>0xFF\<close> everywhere.\<close>

definition dirty_heap :: alloc_state where
  "dirty_heap = \<lparr>HEAD = NULL, brk = 0x1000, brk_limit = 0x2000, mem = (\<lambda>_. 255)\<rparr>"

text \<open>A heap whose free list holds the single block at \<open>0x1000\<close>, of capacity 64.\<close>

definition big_free :: alloc_state where
  "big_free = \<lparr>HEAD = 0x1000, brk = 0x1048, brk_limit = 0x2000, mem = store64 (\<lambda>_. 0) 0x1000 64\<rparr>"

section \<open>Call sequences\<close>

text \<open>The four public operations as data, so that a state reached by a sequence of calls
  can be written down: \<open>run s cs\<close> performs the calls \<open>cs\<close> from \<open>s\<close> and returns the
  pointers the calls returned (\<open>NULL\<close> for a release) with the final state.\<close>

datatype call = Allocate "64 word" | ZeroAllocate "64 word" "64 word" | Resize addr "64 word"
  | Release addr

fun exec :: "alloc_state \<Rightarrow> call \<Rightarrow> (addr \<times> alloc_state) option" where
  "exec s (Allocate n) = tumalloc s n"
| "exec s (ZeroAllocate num sz) = tucalloc s num sz"
| "exec s (Resize ptr n) = turealloc s ptr n"
| "exec s (Release ptr) = map_option (\<lambda>s'. (NULL, s')) (tufree s ptr)"

fun run :: "alloc_state \<Rightarrow> call list \<Rightarrow> (addr list \<times> alloc_state) option" where
  "run s [] = Some ([], s)"
| "run s (c # cs) =
     (case exec s c of None \<Rightarrow> None
      | Some (r, s') \<Rightarrow> map_option (\<lambda>(rs, s''). (r # rs, s'')) (run s' cs))"

section \<open>Address ranges of blocks\<close>

text \<open>A block at \<open>b\<close> with a header of \<open>hdr\<close> bytes occupies the addresses from \<open>b\<close> up to
  \<open>block_end m hdr b\<close>. \<open>tumalloc\<close> carves blocks with \<open>hdr = 8\<close>; \<open>coalesce\<close> and its
  helpers compute with \<open>hdr = 16\<close>.\<close>

definition block_end :: "memory \<Rightarrow> nat \<Rightarrow> addr \<Rightarrow> nat" where
  "block_end m hdr b = unat b + hdr + unat (get_size m b)"

definition subrange :: "memory \<Rightarrow> nat \<Rightarrow> addr \<Rightarrow> addr \<Rightarrow> bool" where
  "subrange m hdr a b \<longleftrightarrow> unat b \<le> unat a \<and> block_end m hdr a \<le> block_end m hdr b"

definition blocks_overlap :: "memory \<Rightarrow> nat \<Rightarrow> addr \<Rightarrow> addr \<Rightarrow> bool" where
  "blocks_overlap m hdr a b \<longleftrightarrow> unat a < block_end m hdr b \<and> unat b < block_end m hdr a"

section \<open>Memory lemmas\<close>

lemma byte_bit0:
  "bit (ucast (ucast (v::64 word) :: 8 word) :: 64 word) n \<longleftrightarrow> n < 8 \<and> bit v n"
  by (auto simp add: bit_simps)

lemma byte_bit:
  "k + 8 \<le> 64 \<Longrightarrow>
   bit (push_bit k (ucast (ucast (drop_bit k (v::64 word)) :: 8 word)) :: 64 word) n
     \<longleftrightarrow> k \<le> n \<and> n < k + 8 \<and> bit v n"
  by (auto simp add: bit_simps)

lemma byte_join:
  "(ucast (ucast (v::64 word) :: 8 word) :: 64 word)
   OR push_bit 8 (ucast (ucast (drop_bit 8 v) :: 8 word))
   OR push_bit 16 (ucast (ucast (drop_bit 16 v) :: 8 word))
   OR push_bit 24 (ucast (ucast (drop_bit 24 v) :: 8 word))
   OR push_bit 32 (ucast (ucast (drop_bit 32 v) :: 8 word))
   OR push_bit 40 (ucast (ucast (drop_bit 40 v) :: 8 word))
   OR push_bit 48 (ucast (ucast (drop_bit 48 v) :: 8 word))
   OR push_bit 56 (ucast (ucast (drop_bit 56 v) :: 8 word)) = v"
  (is "?lhs = v")
proof (rule bit_word_eqI)
  fix n :: nat
  assume n: "n < LENGTH(64)"
  have "n < 8 \<or> (8 \<le> n \<and> n < 8 + 8) \<or> (16 \<le> n \<and> n < 16 + 8) \<or> (24 \<le> n \<and> n < 24 + 8)
      \<or> (32 \<le> n \<and> n < 32 + 8) \<or> (40 \<le> n \<and> n < 40 + 8) \<or> (48 \<le> n \<and> n < 48 + 8)
      \<or> (56 \<le> n \<and> n < 56 + 8)"
    using n by simp linarith
  then show "bit ?lhs n = bit v n"
    unfolding bit_or_iff byte_bit0 by (simp only: byte_bit) blast
qed

lemma load64_store64_same [simp]: "load64 (store64 m a v) a = v"
  unfolding load64_def store64_def
  by (simp add: add_diff_eq byte_join)


lemma store64_other: "\<not> x - a < 8 \<Longrightarrow> store64 m a v x = m x"
  by (simp add: store64_def)

lemma off_outside:
  fixes d :: "64 word"
  assumes "8 \<le> d" "d \<le> - 8" "i < 8"
  shows "\<not> d + i < 8"
proof -
  have d1: "8 \<le> unat d" using assms(1) by (simp add: word_le_nat_alt)
  have d2: "unat d \<le> 2 ^ 64 - 8" using assms(2) by (simp add: word_le_nat_alt)
  have i: "unat i < 8" using assms(3) by (simp add: word_less_nat_alt)
  have "unat (d + i) = (unat d + unat i) mod 2 ^ 64" by (simp add: unat_word_ariths)
  also have "\<dots> = unat d + unat i" using d2 i by simp
  finally have "8 \<le> unat (d + i)" using d1 by simp
  then show ?thesis by (simp add: word_less_nat_alt)
qed

text \<open>A store does not change what is read from eight bytes that lie apart from it.\<close>

lemma load64_store64_disj:
  assumes "8 \<le> a' - a" "a' - a \<le> - 8"
  shows "load64 (store64 m a v) a' = load64 m a'"
proof -
  have *: "\<not> a' + i - a < 8" if "i < 8" for i
    using off_outside [OF assms that] by (simp add: algebra_simps)
  have "store64 m a v (a' + i) = m (a' + i)" if "i < 8" for i
    using * [OF that] by (simp add: store64_def)
  from this [of 0] this [of 1] this [of 2] this [of 3] this [of 4] this [of 5] this [of 6] this [of 7]
  show ?thesis by (simp add: load64_def)
qed

section \<open>Null pointers\<close>

text \<open>
  Claim C9. \<open>tufree\<close> on the null pointer returns at once and leaves the whole allocator
  state as it was, and \<open>turealloc\<close> on the null pointer is, for every size, the very
  call \<open>tumalloc\<close> of that size: same result, same final state, same (non-)termination.
\<close>

theorem null_pointer_calls:
  "tufree s NULL = Some s \<and> turealloc s NULL n = tumalloc s n"
  by (simp add: tufree_def turealloc_def)

section \<open>Resizing within the recorded capacity\<close>

lemma one_block_reached: "tumalloc heap0 1 = Some (0x1008, one_block)"
  by (simp add: tumalloc_def heap0_def one_block_def first_fit.simps heap_grow_def do_alloc_def
      sbrk_def align_up_def ALIGNMENT_def sizeof_size_t_def)

text \<open>
  Claim C7, as amended. For a non-null pointer and a new size that is not zero and not
  above the capacity recorded in the size word before the pointer, \<open>turealloc\<close> returns
  the pointer itself and the allocator state (free list, break, every byte of memory)
  is exactly the state before the call: nothing is allocated, copied or released.
\<close>

theorem turealloc_fits_in_place:
  assumes "ptr \<noteq> NULL" and "new_size \<noteq> 0"
    and "new_size \<le> load64 (mem s) (ptr - sizeof_size_t)"
  shows "turealloc s ptr new_size = Some (ptr, s)"
  using assms by (simp add: turealloc_def Let_def)

theorem turealloc_fits_in_place_witness:
  "turealloc one_block 0x1008 9 = Some (0x1008, one_block)"
  using turealloc_fits_in_place [of "0x1008" 9 one_block]
  by (simp add: one_block_def sizeof_size_t_def)

text \<open>
  The claim as first stated also covers the new size 0, which is never above the
  capacity. There \<open>turealloc\<close> takes its release branch: on the block of \<open>one_block\<close> it
  returns the null pointer, not the pointer, and the block becomes the head of the
  free list.
\<close>

theorem turealloc_zero_counterexample:
  "(0 :: 64 word) \<le> load64 (mem one_block) (0x1008 - sizeof_size_t) \<and>
   map_option fst (turealloc one_block 0x1008 0) = Some NULL \<and>
   map_option (HEAD \<circ> snd) (turealloc one_block 0x1008 0) = Some 0x1000"
  by (simp add: turealloc_def tufree_def coalesce_def find_prev_def find_next_def
      find_prev_loop.simps find_next_loop.simps coalesce_prev_def coalesce_next_def
      one_block_def sizeof_size_t_def sizeof_free_block_def get_size_def get_next_def set_next_def
      set_size_def Let_def load64_def store64_def)

section \<open>Resizing when the heap is exhausted\<close>

lemma sbrk_sentinel_unchanged:
  assumes "fst (sbrk s k) = - 1"
  shows "sbrk s k = (- 1, s)"
proof (cases "unat (brk s) + unat k \<le> unat (brk_limit s)")
  case False
  then show ?thesis by (simp add: sbrk_def)
next
  case True
  with assms have b: "brk s = - 1" by (simp add: sbrk_def)
  have "unat (brk_limit s) < 2 ^ 64" using unsigned_less [of "brk_limit s"] by simp
  moreover have "unat (- 1 :: 64 word) = 2 ^ 64 - 1"
    by (simp add: unsigned_minus_1_eq_mask mask_eq_exp_minus_1)
  ultimately have "unat k = 0" using True b by simp
  then have "k = 0" by (simp add: unat_eq_0)
  with True show ?thesis by (simp add: sbrk_def b)
qed

lemma tumalloc_out_of_memory:
  assumes "out_of_memory s n"
  shows "tumalloc s n = Some (NULL, s)"
proof -
  from assms obtain prev where
    ff: "first_fit (mem s) (align_up n) (HEAD s) NULL = Some (NULL, prev)"
    by (auto simp add: out_of_memory_def)
  from assms have "sbrk s (align_up n + sizeof_size_t) = (- 1, s)"
    by (simp add: out_of_memory_def sbrk_sentinel_unchanged)
  then have "heap_grow s (align_up n) = (NULL, s)"
    by (simp add: heap_grow_def do_alloc_def)
  with ff show ?thesis by (simp add: tumalloc_def)
qed

text \<open>Conversely, a null result of \<open>tumalloc\<close> is this failure, unless the break is at
  address 0 or \<open>-8\<close> or a free block sits at address \<open>-8\<close>, 8 bytes below the null
  pointer.\<close>

lemma tumalloc_null_cases:
  assumes "tumalloc s n = Some (NULL, s1)"
  shows "out_of_memory s n \<or> brk s = NULL \<or> brk s = - 8 \<or>
         map_option fst (first_fit (mem s) (align_up n) (HEAD s) NULL) = Some (- 8)"
proof (cases "first_fit (mem s) (align_up n) (HEAD s) NULL")
  case None
  with assms show ?thesis by (simp add: tumalloc_def Let_def)
next
  case (Some r)
  obtain cur prev where r: "r = (cur, prev)" by (cases r)
  show ?thesis
  proof (cases "cur = NULL")
    case False
    with assms Some r have "cur + 8 = 0" by (simp add: tumalloc_def Let_def sizeof_size_t_def)
    then have "cur = - 8" by (simp add: eq_neg_iff_add_eq_0)
    with Some r show ?thesis by simp
  next
    case True
    with assms Some r have g: "fst (heap_grow s (align_up n)) = NULL"
      by (simp add: tumalloc_def Let_def)
    let ?r = "sbrk s (align_up n + sizeof_size_t)"
    from g have "fst ?r = - 1 \<or> fst ?r = NULL \<or> fst ?r + 8 = 0"
      by (auto simp add: heap_grow_def do_alloc_def sizeof_size_t_def split: prod.splits if_splits)
    moreover have "fst ?r = - 1 \<or> fst ?r = brk s" by (simp add: sbrk_def)
    moreover have "brk s = - 8" if "brk s + 8 = 0" using that by (simp add: eq_neg_iff_add_eq_0)
    ultimately show ?thesis using Some r True by (auto simp add: out_of_memory_def)
  qed
qed

text \<open>
  Claim C8. Let the pointer be non-null, the new size non-zero and above the recorded
  capacity, so that \<open>turealloc\<close> needs a new block, and let that allocation fail for lack
  of memory (no free block is taken and \<open>sbrk\<close> refuses). Then the inner \<open>tumalloc\<close>
  returns null, \<open>turealloc\<close> returns null, and the state after the call is the state
  before it: the block is not released, no byte of memory has changed, and the free
  list and the break are as before.
\<close>

theorem turealloc_out_of_memory:
  assumes "ptr \<noteq> NULL" and "new_size \<noteq> 0"
    and "load64 (mem s) (ptr - sizeof_size_t) < new_size"
    and "out_of_memory s new_size"
  shows "tumalloc s new_size = Some (NULL, s) \<and> turealloc s ptr new_size = Some (NULL, s)"
  using assms tumalloc_out_of_memory [of s new_size]
  by (simp add: turealloc_def Let_def not_le [symmetric])

theorem turealloc_out_of_memory_witness:
  "tumalloc full_heap 17 = Some (NULL, full_heap) \<and>
   turealloc full_heap 0x1008 17 = Some (NULL, full_heap)"
proof -
  have 1: "load64 (mem full_heap) (0x1008 - sizeof_size_t) < 17"
    by (simp add: full_heap_def sizeof_size_t_def)
  have 2: "out_of_memory full_heap 17"
    by (simp add: out_of_memory_def full_heap_def first_fit.simps sbrk_def align_up_def
        ALIGNMENT_def sizeof_size_t_def)
  show ?thesis using turealloc_out_of_memory [OF _ _ 1 2] by simp
qed

section \<open>Zero-initialised allocation\<close>

text \<open>
  What \<open>tucalloc\<close> does with the result of its allocation. It asks \<open>tumalloc\<close> for the
  product of its two arguments, taken modulo \<open>2^64\<close> with no overflow check. A null
  result is passed on with the state the allocation left. For a non-null result whose
  region of product length lies in the heap, \<open>tucalloc\<close> returns the same pointer, every
  byte of the region is zero, and nothing else differs from what the allocation left.
  For a non-null result whose region leaves the heap, \<open>tucalloc\<close> does not return.
\<close>

lemma tucalloc_zeroed_in_heap:
  assumes "tumalloc s (num * sz) = Some (ptr, s1)"
  shows "unat (num * sz) = (unat num * unat sz) mod 2 ^ 64"
    and "ptr = NULL \<Longrightarrow> tucalloc s num sz = Some (NULL, s1)"
    and "ptr \<noteq> NULL \<Longrightarrow> in_heap s1 ptr (num * sz) \<Longrightarrow>
          \<exists>s'. tucalloc s num sz = Some (ptr, s') \<and>
            HEAD s' = HEAD s1 \<and> brk s' = brk s1 \<and> brk_limit s' = brk_limit s1 \<and>
            (\<forall>i. i < num * sz \<longrightarrow> mem s' (ptr + i) = 0) \<and>
            (\<forall>x. \<not> x - ptr < num * sz \<longrightarrow> mem s' x = mem s1 x)"
    and "ptr \<noteq> NULL \<Longrightarrow> \<not> in_heap s1 ptr (num * sz) \<Longrightarrow> tucalloc s num sz = None"
  using assms by (simp_all add: tucalloc_def Let_def memset_def unat_word_ariths)

text \<open>On a fresh heap with every byte \<open>0xFF\<close>, \<open>tucalloc 3 4\<close> returns \<open>0x1008\<close> with the twelve
  bytes from there zeroed and the byte after them untouched.\<close>

lemma tucalloc_small_example:
  "\<exists>s'. tucalloc dirty_heap 3 4 = Some (0x1008, s') \<and> mem s' 0x1013 = 0 \<and> mem s' 0x1014 = 255"
proof -
  let ?s1 = "dirty_heap\<lparr>brk := 0x1018, mem := store64 (mem dirty_heap) 0x1000 16\<rparr>"
  have h: "tumalloc dirty_heap (3 * 4) = Some (0x1008, ?s1)"
    by (simp add: tumalloc_def dirty_heap_def first_fit.simps heap_grow_def do_alloc_def sbrk_def
        align_up_def ALIGNMENT_def sizeof_size_t_def)
  have i: "in_heap ?s1 0x1008 (3 * 4)" by (simp add: in_heap_def dirty_heap_def)
  from tucalloc_zeroed_in_heap(3) [OF h _ i] obtain s' where
    1: "tucalloc dirty_heap 3 4 = Some (0x1008, s')" and
    2: "\<forall>i. i < 3 * 4 \<longrightarrow> mem s' (0x1008 + i) = 0" and
    3: "\<forall>x. \<not> x - 0x1008 < 3 * 4 \<longrightarrow> mem s' x = mem ?s1 x"
    by auto
  from 2 [rule_format, of 11] have "mem s' 0x1013 = 0" by simp
  moreover from 3 [rule_format, of "0x1014"] have "mem s' 0x1014 = 255"
    by (simp add: dirty_heap_def store64_def)
  ultimately show ?thesis using 1 by blast
qed

text \<open>
  Claim C6 says that \<open>tucalloc\<close> takes the wrapped product as the size, delegates to
  \<open>tumalloc\<close>, and when that allocation succeeds returns the region with every byte of
  it zero. The code does not keep this for a product within 15 bytes of \<open>2^64\<close>: on the
  fresh heap \<open>tucalloc 1 (2^64 - 1)\<close> asks \<open>tumalloc\<close> for \<open>2^64 - 1\<close> bytes, whose rounding
  wraps to 0; the allocation succeeds with the pointer \<open>0x1008\<close> to a block of recorded
  capacity 0 at the very end of the heap (the break is \<open>0x1008\<close>), and \<open>memset\<close> of
  \<open>2^64 - 1\<close> bytes from there leaves the heap, so the call does not return.
\<close>

theorem tucalloc_wrapped_size_leaves_heap:
  "map_option fst (tumalloc dirty_heap (1 * (- 1))) = Some 0x1008 \<and>
   map_option (\<lambda>r. load64 (mem (snd r)) (fst r - sizeof_size_t)) (tumalloc dirty_heap (1 * (- 1)))
     = Some 0 \<and>
   map_option (brk \<circ> snd) (tumalloc dirty_heap (1 * (- 1))) = Some 0x1008 \<and>
   map_option (\<lambda>r. memset (snd r) (fst r) 0 (1 * (- 1))) (tumalloc dirty_heap (1 * (- 1)))
     = Some None \<and>
   tucalloc dirty_heap 1 (- 1) = None"
  by (simp add: tucalloc_def tumalloc_def dirty_heap_def first_fit.simps heap_grow_def do_alloc_def
      sbrk_def align_up_def ALIGNMENT_def sizeof_size_t_def memset_def in_heap_def Let_def
      unsigned_minus_1_eq_mask mask_eq_exp_minus_1)

section \<open>The first-fit threshold\<close>

lemma first_fit_selected:
  assumes "first_fit m sz cur prev = Some r" and "fst r \<noteq> NULL"
  shows "sz + sizeof_free_block \<le> get_size m (fst r)"
proof -
  have "fst r \<noteq> NULL \<longrightarrow> sz + sizeof_free_block \<le> get_size m (fst r)"
    by (rule first_fit.raw_induct
        [where P = "\<lambda>m sz cur prev r. fst r \<noteq> NULL \<longrightarrow> sz + sizeof_free_block \<le> get_size m (fst r)",
          OF _ assms(1)])
      (auto split: if_splits)
  with assms(2) show ?thesis by simp
qed

lemma first_fit_none:
  "free_path m cur xs \<Longrightarrow> \<forall>x \<in> set xs. \<not> sz + sizeof_free_block \<le> get_size m x \<Longrightarrow>
     map_option fst (first_fit m sz cur prev) = Some NULL"
proof (induction xs arbitrary: cur prev)
  case Nil
  then show ?case by (simp add: first_fit.simps)
next
  case (Cons x xs)
  from Cons.prems have "cur = x" "x \<noteq> NULL" "free_path m (get_next m x) xs"
    and "\<not> sz + sizeof_free_block \<le> get_size m x" by simp_all
  moreover from Cons.IH [OF \<open>free_path m (get_next m x) xs\<close>, of x] Cons.prems(2)
  have "map_option fst (first_fit m sz (get_next m x) x) = Some NULL" by simp
  ultimately show ?case by (subst first_fit.simps) simp
qed

lemma no_wrap_slack:
  fixes sz :: "64 word"
  assumes "unat sz + 16 < 2 ^ 64"
  shows "\<not> sz + sizeof_free_block \<le> sz"
proof -
  have "unat (sz + 16) = (unat sz + 16) mod 2 ^ 64" by (simp add: unat_word_ariths)
  also have "\<dots> = unat sz + 16" using assms by simp
  finally show ?thesis by (simp add: word_le_nat_alt sizeof_free_block_def)
qed

section \<open>Symbolic execution on a small heap\<close>

lemmas hdr_defs = get_size_def get_next_def set_size_def set_next_def sizeof_size_t_def
  sizeof_free_block_def

lemma first_fit_empty: "first_fit m sz NULL prev = Some (NULL, prev)"
  by (simp add: first_fit.simps)


text \<open>Heap growth when there is room.\<close>
lemma heap_grow_room:
  assumes "brk s \<noteq> NULL" and "unat (brk s) + unat sz + 8 \<le> unat (brk_limit s)"
  shows "heap_grow s sz =
     (brk s + 8, s\<lparr>brk := brk s + (sz + 8), mem := store64 (mem s) (brk s) sz\<rparr>)"
proof -
  have lim: "unat (brk_limit s) < 2 ^ 64" using unsigned_less [of "brk_limit s"] by simp
  have "unat (sz + 8) = (unat sz + 8) mod 2 ^ 64" by (simp add: unat_word_ariths)
  also have "\<dots> = unat sz + 8" using assms(2) lim by simp
  finally have u: "unat (sz + 8) = unat sz + 8" .
  have "unat (- 1 :: 64 word) = 2 ^ 64 - 1"
    by (simp add: unsigned_minus_1_eq_mask mask_eq_exp_minus_1)
  with assms(2) lim have "brk s \<noteq> - 1" by auto
  with assms u show ?thesis
    by (simp add: heap_grow_def do_alloc_def sbrk_def sizeof_size_t_def)
qed

lemma load64_store64_apart [simp]:
  "8 \<le> a' - a \<Longrightarrow> a' - a \<le> - 8 \<Longrightarrow> load64 (store64 m a v) a' = load64 m a'"
  by (rule load64_store64_disj)

lemma tumalloc_fresh:
  assumes "HEAD s = NULL" "brk s \<noteq> NULL" "unat (brk s) + unat (align_up n) + 8 \<le> unat (brk_limit s)"
  shows "tumalloc s n = Some (brk s + 8,
     s\<lparr>brk := brk s + (align_up n + 8), mem := store64 (mem s) (brk s) (align_up n)\<rparr>)"
  using assms by (simp add: tumalloc_def first_fit_empty heap_grow_room)





lemmas eval_defs = tumalloc_def tufree_def coalesce_def find_prev_def find_next_def
      find_prev_loop.simps find_next_loop.simps first_fit.simps coalesce_prev_def coalesce_next_def
      heap_grow_def do_alloc_def sbrk_def align_up_def ALIGNMENT_def
      sizeof_size_t_def sizeof_free_block_def get_size_def get_next_def set_next_def
      set_size_def Let_def load64_def store64_def


section \<open>Allocate, release, allocate again\<close>






section \<open>Releasing two neighbouring blocks\<close>

lemma unat_plus_small:
  fixes b k :: "64 word"
  assumes "unat b + unat k < 2 ^ 64"
  shows "unat (b + k) = unat b + unat k"
proof -
  have "unat (b + k) = (unat b + unat k) mod 2 ^ 64" by (simp add: unat_word_ariths)
  with assms show ?thesis by simp
qed

lemma plus_nonzero:
  fixes b k :: "64 word"
  assumes "unat b + unat k < 2 ^ 64" "b \<noteq> 0"
  shows "b + k \<noteq> 0"
proof -
  from assms(2) have "0 < unat b" by (simp add: unat_gt_0)
  with unat_plus_small [OF assms(1)] have "0 < unat (b + k)" by simp
  then show ?thesis by (simp add: unat_gt_0)
qed


lemma tumalloc_grows:
  assumes "first_fit (mem s) (align_up n) (HEAD s) NULL = Some (NULL, prev)"
    and "brk s \<noteq> NULL" and "unat (brk s) + unat (align_up n) + 8 \<le> unat (brk_limit s)"
  shows "tumalloc s n = Some (brk s + 8,
      s\<lparr>brk := brk s + (align_up n + 8), mem := store64 (mem s) (brk s) (align_up n)\<rparr>)"
  using assms by (simp add: tumalloc_def Let_def heap_grow_room)







section \<open>Zero-initialised allocation from a fresh block\<close>

text \<open>
  With an empty free list, room to grow and a product that its rounding does not wrap
  (the product is at most the capacity the block records), \<open>tucalloc\<close> returns the
  address 8 bytes above the old break, every byte of the product-length region there is
  zero, and the block's size word still holds the rounded product.
\<close>

lemma tucalloc_fresh:
  assumes "HEAD s = NULL" and "brk s \<noteq> NULL"
    and "unat (brk s) + unat (align_up (num * sz)) + 8 \<le> unat (brk_limit s)"
    and "num * sz \<le> align_up (num * sz)"
  shows "\<exists>s'. tucalloc s num sz = Some (brk s + 8, s') \<and>
           (\<forall>i. i < num * sz \<longrightarrow> mem s' (brk s + 8 + i) = 0) \<and>
           load64 (mem s') (brk s) = align_up (num * sz)"
proof -
  let ?n = "num * sz"
  let ?a = "align_up ?n"
  let ?s1 = "s\<lparr>brk := brk s + (?a + 8), mem := store64 (mem s) (brk s) ?a\<rparr>"
  have lim: "unat (brk_limit s) < 2 ^ 64" using unsigned_less [of "brk_limit s"] by simp
  have n: "unat ?n \<le> unat ?a" using assms(4) by (simp add: word_le_nat_alt)
  have a8: "unat (?a + 8) = unat ?a + 8"
    using unat_plus_small [of ?a 8] assms(3) lim by simp
  have b8: "unat (brk s + 8) = unat (brk s) + 8"
    using unat_plus_small [of "brk s" 8] assms(3) lim by simp
  have ba: "unat (brk s + (?a + 8)) = unat (brk s) + unat ?a + 8"
    using unat_plus_small [of "brk s" "?a + 8"] a8 assms(3) lim by simp
  have p0: "brk s + 8 \<noteq> NULL" using plus_nonzero [of "brk s" 8] assms(2,3) lim by simp
  have h: "tumalloc s ?n = Some (brk s + 8, ?s1)" by (rule tumalloc_fresh) fact+
  have i: "in_heap ?s1 (brk s + 8) ?n" using n b8 ba by (simp add: in_heap_def)
  from tucalloc_zeroed_in_heap(3) [OF h p0 i] obtain s' where
    1: "tucalloc s num sz = Some (brk s + 8, s')" and
    2: "\<forall>i. i < ?n \<longrightarrow> mem s' (brk s + 8 + i) = 0" and
    3: "\<forall>x. \<not> x - (brk s + 8) < ?n \<longrightarrow> mem s' x = mem ?s1 x"
    by blast
  have out: "\<not> (brk s + k) - (brk s + 8) < ?n" if "unat k < 8" for k
  proof -
    have "unat (k - 8) = unat k + 2 ^ 64 - 8"
      using unat_sub_if_size [of k 8] that by (simp add: word_size)
    moreover have "unat ?n + 10 \<le> 2 ^ 64"
      using n assms(2,3) lim unat_gt_0 [of "brk s"] by simp
    ultimately have "unat ?n \<le> unat (k - 8)" by simp
    moreover have "(brk s + k) - (brk s + 8) = k - 8" by simp
    ultimately show ?thesis by (simp add: word_less_nat_alt)
  qed
  have "mem s' (brk s + k) = mem ?s1 (brk s + k)" if "unat k < 8" for k
    using 3 out [OF that] by blast
  from this [of 0] this [of 1] this [of 2] this [of 3] this [of 4] this [of 5] this [of 6]
    this [of 7]
  have "load64 (mem s') (brk s) = load64 (mem ?s1) (brk s)" by (simp add: load64_def)
  then have "load64 (mem s') (brk s) = ?a" by simp
  with 1 2 show ?thesis by blast
qed

section \<open>The first-fit guard at the top of the size range\<close>

text \<open>
  Below the top of the size range the guard of the scan does what it is written for:
  with the rounded request plus \<open>sizeof(free_block)\<close> not wrapping, a free list whose
  blocks all have exactly the rounded request as their capacity yields no block, and
  \<open>tumalloc\<close> returns null with the state unchanged when \<open>sbrk\<close> refuses, and the
  address 8 bytes above the old break, with the break raised and the size stored, when
  there is room.
\<close>

lemma exact_fit_not_taken:
  assumes "free_path (mem s) (HEAD s) xs"
    and "\<forall>x \<in> set xs. get_size (mem s) x = align_up n"
    and "unat (align_up n) + 16 < 2 ^ 64"
  shows "map_option fst (first_fit (mem s) (align_up n) (HEAD s) NULL) = Some NULL"
    and "fst (sbrk s (align_up n + sizeof_size_t)) = - 1 \<Longrightarrow> tumalloc s n = Some (NULL, s)"
    and "brk s \<noteq> NULL \<Longrightarrow> unat (brk s) + unat (align_up n) + 8 \<le> unat (brk_limit s) \<Longrightarrow>
          tumalloc s n = Some (brk s + 8,
            s\<lparr>brk := brk s + (align_up n + 8), mem := store64 (mem s) (brk s) (align_up n)\<rparr>)"
proof -
  from assms(2,3) have "\<forall>x \<in> set xs. \<not> align_up n + sizeof_free_block \<le> get_size (mem s) x"
    using no_wrap_slack [of "align_up n"] by simp
  with assms(1) show ff: "map_option fst (first_fit (mem s) (align_up n) (HEAD s) NULL) = Some NULL"
    by (rule first_fit_none)
  then obtain prev where p: "first_fit (mem s) (align_up n) (HEAD s) NULL = Some (NULL, prev)"
    by auto
  show "tumalloc s n = Some (NULL, s)" if "fst (sbrk s (align_up n + sizeof_size_t)) = - 1"
    by (rule tumalloc_out_of_memory) (simp add: out_of_memory_def ff that)
  show "tumalloc s n = Some (brk s + 8,
            s\<lparr>brk := brk s + (align_up n + 8), mem := store64 (mem s) (brk s) (align_up n)\<rparr>)"
    if "brk s \<noteq> NULL" "unat (brk s) + unat (align_up n) + 8 \<le> unat (brk_limit s)"
    by (rule tumalloc_grows [OF p that])
qed

text \<open>
  Claim C10 says that the scan takes a free block only when its capacity is at least
  the rounded request plus one full header, so that a block whose capacity equals the
  rounded request (let alone a smaller one) is never taken. The code does not keep this
  at the top of the size range, where the sum \<open>size + sizeof(free_block)\<close> is computed in
  64 bits and wraps: on the fresh heap allocate 32 bytes (returning \<open>0x1008\<close>), release
  them, and request \<open>2^64 - 17\<close> bytes. The request is rounded to \<open>2^64 - 16\<close>, the guard
  compares the block's capacity with \<open>2^64 - 16 + 16 = 0\<close>, and the block of capacity 32
  is taken and returned for the request.
\<close>

theorem first_fit_guard_wraps:
  "align_up (- 17) = - 16 \<and> align_up (- 17) + sizeof_free_block = 0 \<and>
   map_option fst (run heap0 [Allocate 32, Release 0x1008, Allocate (- 17)])
     = Some [0x1008, NULL, 0x1008] \<and>
   map_option (\<lambda>r. get_size (mem (snd r)) 0x1000)
     (run heap0 [Allocate 32, Release 0x1008, Allocate (- 17)]) = Some 32"
  by (simp add: heap0_def eval_defs del: load64_store64_apart)

section \<open>Overlapping free blocks\<close>

text \<open>
  Claim C3 says that in every state reached by calls of the four operations no two
  blocks of the free list overlap and none is a subrange of another. The code does not
  keep this: on the fresh heap allocate 32, 0 and 32 bytes (returning \<open>0x1008\<close>,
  \<open>0x1030\<close>, \<open>0x1038\<close>) and release the first and the third. \<open>coalesce\<close> adds the third
  block's bytes to the first block but leaves the third block, just pushed, at the head
  of the list. The free list is then the block at \<open>0x1030\<close> (capacity 32) followed by
  the block at \<open>0x1000\<close> (capacity 80), and the former lies inside the latter, whether
  blocks are measured with an 8-byte or a 16-byte header.
\<close>

theorem coalesce_leaves_absorbed_block:
  "(case run heap0 [Allocate 32, Allocate 0, Allocate 32, Release 0x1008, Release 0x1038] of
      None \<Rightarrow> False
    | Some (rets, s) \<Rightarrow>
        rets = [0x1008, 0x1030, 0x1038, NULL, NULL] \<and>
        free_path (mem s) (HEAD s) [0x1030, 0x1000] \<and>
        get_size (mem s) 0x1030 = 32 \<and> get_size (mem s) 0x1000 = 80 \<and>
        blocks_overlap (mem s) 8 0x1030 0x1000 \<and> subrange (mem s) 8 0x1030 0x1000 \<and>
        blocks_overlap (mem s) 16 0x1030 0x1000 \<and> subrange (mem s) 16 0x1030 0x1000)"
  by (simp add: heap0_def eval_defs block_end_def subrange_def blocks_overlap_def
      del: load64_store64_apart)

section \<open>Alignment of returned addresses\<close>

text \<open>
  Claim C4 says that a successful \<open>tumalloc\<close> of a positive size returns an address
  aligned to 16 bytes and usable for at least that many bytes. The code does not keep
  this: on the fresh heap, whose break \<open>0x1000\<close> is aligned, \<open>tumalloc 1\<close> returns
  \<open>0x1008\<close>, 8 bytes past the break, which is not a multiple of \<open>ALIGNMENT\<close>.
\<close>

theorem tumalloc_misaligned:
  "map_option fst (tumalloc heap0 1) = Some 0x1008 \<and> (0x1008 :: 64 word) AND (ALIGNMENT - 1) \<noteq> 0"
  by (simp add: heap0_def eval_defs del: load64_store64_apart)

text \<open>The misalignment does not depend on where the break starts: of two allocations in
  a row from an empty free list, at most one returns an aligned address, as they lie a
  multiple of 16 plus 8 bytes apart. And a request within 15 bytes of \<open>2^64\<close> is rounded
  to 0: it succeeds with a block of recorded capacity 0.\<close>

lemma tumalloc_wrapped_request:
  "map_option fst (tumalloc heap0 (- 1)) = Some 0x1008 \<and>
   map_option (\<lambda>r. load64 (mem (snd r)) (fst r - sizeof_size_t)) (tumalloc heap0 (- 1)) = Some 0 \<and>
   map_option (brk \<circ> snd) (tumalloc heap0 (- 1)) = Some 0x1008"
  by (simp add: heap0_def eval_defs del: load64_store64_apart)

lemma align_up_low_bits: "align_up n AND 15 = 0"
  by (simp add: align_up_def ALIGNMENT_def and.assoc)

lemma low_bits_shift:
  fixes p sz :: "64 word"
  assumes "p AND 15 = 0" "sz AND 15 = 0"
  shows "(p + (sz + 8)) AND 15 \<noteq> 0"
proof
  assume q: "(p + (sz + 8)) AND 15 = 0"
  have m: "(15 :: 64 word) = mask 4" by (simp add: mask_eq_exp_minus_1)
  have dp: "16 dvd unat p" using assms(1) and_mask_dvd_nat [of 4 p] by (simp add: m)
  have ds: "16 dvd unat sz" using assms(2) and_mask_dvd_nat [of 4 sz] by (simp add: m)
  have dq: "16 dvd unat (p + (sz + 8))"
    using q and_mask_dvd_nat [of 4 "p + (sz + 8)"] by (simp add: m)
  have "unat (p + (sz + 8)) = (unat p + (unat sz + 8)) mod 2 ^ 64"
    by (simp add: unat_word_ariths mod_simps)
  with dq have "16 dvd (unat p + (unat sz + 8)) mod 2 ^ 64" by simp
  then have "16 dvd unat p + (unat sz + 8)" by (simp add: dvd_mod_iff)
  with dp ds show False by presburger
qed

lemma consecutive_not_both_aligned:
  assumes "HEAD s = NULL" and "brk s \<noteq> NULL"
    and "unat (brk s) + unat (align_up n) + 8 \<le> unat (brk_limit s)"
    and "unat (brk s + (align_up n + 8)) + unat (align_up k) + 8 \<le> unat (brk_limit s)"
    and "brk s + (align_up n + 8) \<noteq> NULL"
  shows "\<exists>p s1 q s2. tumalloc s n = Some (p, s1) \<and> tumalloc s1 k = Some (q, s2) \<and>
           p \<noteq> NULL \<and> q \<noteq> NULL \<and> (p AND 15 = 0 \<longrightarrow> q AND 15 \<noteq> 0)"
proof -
  let ?p = "brk s + 8"
  let ?s1 = "s\<lparr>brk := brk s + (align_up n + 8), mem := store64 (mem s) (brk s) (align_up n)\<rparr>"
  let ?q = "brk s + (align_up n + 8) + 8"
  have lim: "unat (brk_limit s) < 2 ^ 64" using unsigned_less [of "brk_limit s"] by simp
  have a: "tumalloc s n = Some (?p, ?s1)" by (rule tumalloc_fresh) fact+
  have "tumalloc ?s1 k = Some (brk ?s1 + 8,
      ?s1\<lparr>brk := brk ?s1 + (align_up k + 8), mem := store64 (mem ?s1) (brk ?s1) (align_up k)\<rparr>)"
    by (rule tumalloc_fresh) (use assms in simp_all)
  then have b: "\<exists>s2. tumalloc ?s1 k = Some (?q, s2)" by simp
  have p0: "?p \<noteq> NULL"
    using plus_nonzero [of "brk s" 8] assms(2,3) lim by simp
  have q0: "?q \<noteq> NULL"
    using plus_nonzero [of "brk s + (align_up n + 8)" 8] assms(4,5) lim by simp
  have "?q AND 15 \<noteq> 0" if "?p AND 15 = 0"
  proof -
    have e: "?q = ?p + (align_up n + 8)" by simp
    show ?thesis unfolding e by (rule low_bits_shift [OF that align_up_low_bits])
  qed
  then have "?p AND 15 = 0 \<longrightarrow> ?q AND 15 \<noteq> 0" by auto
  with a b p0 q0 show ?thesis by blast
qed

section \<open>Splitting a block\<close>

text \<open>Two eight-byte cells that lie apart in the address space, in terms of \<open>unat\<close>.\<close>

lemma load64_store64_apart_nat:
  assumes "unat a + 8 \<le> unat a' \<and> unat a' + 8 \<le> 2 ^ 64 \<or>
           unat a' + 8 \<le> unat a \<and> unat a + 8 \<le> 2 ^ 64"
  shows "load64 (store64 m a v) a' = load64 m a'"
proof (rule load64_store64_disj)
  have sub: "unat (a' - a) =
      (if unat a \<le> unat a' then unat a' - unat a else unat a' + 2 ^ 64 - unat a)"
    using unat_sub_if_size [of a' a] by (simp add: word_size)
  have la: "unat a < 2 ^ 64" and la': "unat a' < 2 ^ 64"
    using unsigned_less [of a] unsigned_less [of a'] by simp_all
  have m8: "unat (- 8 :: 64 word) = 2 ^ 64 - 8" by simp
  from assms sub la la' have "8 \<le> unat (a' - a) \<and> unat (a' - a) \<le> 2 ^ 64 - 8"
    by (auto split: if_splits)
  then show "8 \<le> a' - a" and "a' - a \<le> - 8"
    by (simp_all add: word_le_nat_alt m8)
qed

text \<open>A cell at a small positive offset from the stored cell, and the other way round.\<close>

lemma load64_store64_offset:
  fixes d :: "64 word"
  assumes "8 \<le> unat d" "unat d \<le> 2 ^ 64 - 8"
  shows "load64 (store64 m a v) (a + d) = load64 m (a + d)"
    and "load64 (store64 m (a + d) v) a = load64 m a"
proof -
  have m8: "unat (- 8 :: 64 word) = 2 ^ 64 - 8" by simp
  have d: "8 \<le> d" "d \<le> - 8" using assms by (simp_all add: word_le_nat_alt m8)
  show "load64 (store64 m a v) (a + d) = load64 m (a + d)"
    by (rule load64_store64_disj) (use d in simp_all)
  have nd: "unat (- d) = 2 ^ 64 - unat d"
    using unat_sub_if_size [of 0 d] assms by (simp add: word_size)
  have "8 \<le> - d" "- d \<le> - 8" using assms nd by (simp_all add: word_le_nat_alt m8)
  then show "load64 (store64 m (a + d) v) a = load64 m a"
    by (intro load64_store64_disj) simp_all
qed

lemma scast_nonneg_small:
  fixes i :: "32 word"
  assumes "0 \<le> sint i"
  shows "unat (scast i :: 64 word) < 2 ^ 31"
proof -
  have lt: "sint i < 2 ^ 31" using sint_lt [of i] by simp
  have "uint (word_of_int (sint i) :: 64 word) = sint i"
    by (rule word_of_int_inverse [OF refl]) (use assms lt in simp_all)
  then have "uint (scast i :: 64 word) = sint i" by (simp only: scast_eq)
  then have "unat (scast i :: 64 word) = nat (sint i)" by (simp only: unat_eq_nat_uint)
  with lt assms show ?thesis by simp
qed

lemma free_path_cong:
  "\<forall>x \<in> set xs. get_next m' x = get_next m x \<Longrightarrow> free_path m' h xs = free_path m h xs"
proof (induction xs arbitrary: h)
  case Nil
  show ?case by simp
next
  case (Cons x xs)
  then have "free_path m' (get_next m x) xs = free_path m (get_next m x) xs" by simp
  moreover from Cons.prems have "get_next m' x = get_next m x" by simp
  ultimately show ?case by simp
qed

lemma store64_outside16:
  fixes x a :: "64 word"
  assumes "\<not> x - a < 16"
  shows "\<not> x - a < 8" and "\<not> x - (a + 8) < 8"
proof -
  from assms have y: "16 \<le> unat (x - a)" by (simp add: word_less_nat_alt)
  then show "\<not> x - a < 8" by (simp add: word_less_nat_alt)
  have "unat (x - a - 8) = unat (x - a) - 8"
    using unat_sub_if_size [of "x - a" 8] y by simp
  with y have 8: "8 \<le> unat (x - a - 8)" by simp
  have e: "x - (a + 8) = x - a - 8" by simp
  show "\<not> x - (a + 8) < 8" unfolding e using 8 by (simp add: word_less_nat_alt)
qed

text \<open>The memory after the three stores of \<open>split\<close>, for a target size below \<open>2^31\<close>.\<close>

lemma split_cells:
  fixes block sz v :: "64 word"
  assumes sz: "unat sz < 2 ^ 31"
    and nb: "nb = block + sz + 16"
    and m1: "m1 = store64 m nb v"
    and m2: "m2 = store64 m1 (nb + 8) (load64 m1 (block + 8))"
    and m3: "m3 = store64 m2 block sz"
  shows "load64 m3 block = sz"
    and "load64 m3 (block + 8) = load64 m (block + 8)"
    and "load64 m3 nb = v"
    and "load64 m3 (nb + 8) = load64 m (block + 8)"
    and "\<forall>x. \<not> x - block < 8 \<and> \<not> x - nb < 16 \<longrightarrow> m3 x = m x"
proof -
  have u: "unat (sz + k) = unat sz + unat k" if "unat k \<le> 24" for k
    using unat_plus_small [of sz k] sz that by simp
  have s8: "8 \<le> unat (sz + 8)" "unat (sz + 8) \<le> 2 ^ 64 - 8" using u [of 8] sz by simp_all
  have s16: "8 \<le> unat (sz + 16)" "unat (sz + 16) \<le> 2 ^ 64 - 8" using u [of 16] sz by simp_all
  have s24: "8 \<le> unat (sz + 24)" "unat (sz + 24) \<le> 2 ^ 64 - 8" using u [of 24] sz by simp_all
  have c8: "8 \<le> unat (8 :: 64 word)" "unat (8 :: 64 word) \<le> 2 ^ 64 - 8" by simp_all
  have e1: "nb = (block + 8) + (sz + 8)" and e2: "nb + 8 = (block + 8) + (sz + 16)"
    and e3: "nb = block + (sz + 16)" and e4: "nb + 8 = block + (sz + 24)"
    by (simp_all add: nb)
  have r1: "load64 m1 (block + 8) = load64 m (block + 8)"
    unfolding m1 e1 by (rule load64_store64_offset(2) [OF s8])
  show "load64 m3 block = sz" by (simp add: m3)
  have "load64 m3 (block + 8) = load64 m2 (block + 8)"
    unfolding m3 by (rule load64_store64_offset(1) [OF c8])
  also have "\<dots> = load64 m1 (block + 8)"
    unfolding m2 e2 by (rule load64_store64_offset(2) [OF s16])
  finally show "load64 m3 (block + 8) = load64 m (block + 8)" by (simp only: r1)
  have "load64 m3 nb = load64 m2 nb"
    unfolding m3 e3 by (rule load64_store64_offset(1) [OF s16])
  also have "\<dots> = load64 m1 nb"
    unfolding m2 by (rule load64_store64_offset(2) [OF c8])
  also have "\<dots> = v" by (simp add: m1)
  finally show "load64 m3 nb = v" .
  have "load64 m3 (nb + 8) = load64 m2 (nb + 8)"
    unfolding m3 e4 by (rule load64_store64_offset(1) [OF s24])
  also have "\<dots> = load64 m1 (block + 8)" by (simp add: m2)
  finally show "load64 m3 (nb + 8) = load64 m (block + 8)" by (simp only: r1)
  show "\<forall>x. \<not> x - block < 8 \<and> \<not> x - nb < 16 \<longrightarrow> m3 x = m x"
  proof (intro allI impI)
    fix x assume a: "\<not> x - block < 8 \<and> \<not> x - nb < 16"
    from a have "m3 x = m2 x" by (simp add: m3 store64_def)
    also from a store64_outside16 [of x nb] have "m2 x = m1 x" by (simp add: m2 store64_def)
    also from a store64_outside16 [of x nb] have "m1 x = m x" by (simp add: m1 store64_def)
    finally show "m3 x = m x" .
  qed
qed

text \<open>A link field that lies outside the block being split is not touched.\<close>

lemma split_other_link:
  fixes block sz cap x :: "64 word"
  assumes sz: "unat sz + 16 \<le> unat cap"
    and inside: "unat block + 16 + unat cap \<le> 2 ^ 64"
    and x: "unat x + 16 \<le> unat block \<or> unat block + 16 + unat cap \<le> unat x"
    and xin: "unat x + 16 \<le> 2 ^ 64"
    and nb: "nb = block + sz + 16"
    and m1: "m1 = store64 m nb v"
    and m2: "m2 = store64 m1 (nb + 8) w"
    and m3: "m3 = store64 m2 block sz"
  shows "load64 m3 (x + 8) = load64 m (x + 8)" and "x \<noteq> nb"
proof -
  have lc: "unat cap < 2 ^ 64" using unsigned_less [of cap] by simp
  have "unat (block + sz) = unat block + unat sz"
    using unat_plus_small [of block sz] sz inside by simp
  then have un: "unat nb = unat block + unat sz + 16"
    using unat_plus_small [of "block + sz" 16] sz inside by (simp add: nb)
  have un8: "unat (nb + 8) = unat nb + 8"
    using unat_plus_small [of nb 8] un sz inside by simp
  have ux: "unat (x + 8) = unat x + 8"
    using unat_plus_small [of x 8] xin by simp
  have "load64 m3 (x + 8) = load64 m2 (x + 8)"
    unfolding m3 by (rule load64_store64_apart_nat) (use x xin ux inside in auto)
  also have "\<dots> = load64 m1 (x + 8)"
    unfolding m2 by (rule load64_store64_apart_nat) (use x xin ux un un8 sz inside in auto)
  also have "\<dots> = load64 m (x + 8)"
    unfolding m1 by (rule load64_store64_apart_nat) (use x xin ux un sz inside in auto)
  finally show "load64 m3 (x + 8) = load64 m (x + 8)" .
  from x un sz show "x \<noteq> nb" by auto
qed

text \<open>
  What \<open>split\<close> does, for a target size that is not negative. If the block's capacity is
  below the target plus \<open>sizeof(free_block)\<close>, it returns null and changes nothing.
  Otherwise it returns the block, whose recorded size is now the target; the remainder
  block at \<open>block + target + sizeof(free_block)\<close> records the old capacity minus the
  target minus one header and is given the block's old link. The head of the free list,
  the block's own link and every byte outside the block's size word and the remainder's
  header are unchanged: a free list of non-overlapping blocks is the same list of nodes
  after the call, and the remainder is not among them.
\<close>

lemma split_effect:
  fixes isize :: "32 word"
  assumes "0 \<le> sint isize"
  shows "let sz = (scast isize :: 64 word); cap = get_size (mem s) block;
             new_block = block + sz + sizeof_free_block in
    (cap < sz + sizeof_free_block \<longrightarrow> split s block isize = (NULL, s)) \<and>
    (\<not> cap < sz + sizeof_free_block \<longrightarrow>
      (\<exists>s'. split s block isize = (block, s') \<and>
        HEAD s' = HEAD s \<and> brk s' = brk s \<and> brk_limit s' = brk_limit s \<and>
        get_size (mem s') block = sz \<and>
        get_next (mem s') block = get_next (mem s) block \<and>
        get_size (mem s') new_block = cap - sz - sizeof_free_block \<and>
        get_next (mem s') new_block = get_next (mem s) block \<and>
        (\<forall>x. \<not> x - block < 8 \<and> \<not> x - new_block < 16 \<longrightarrow> mem s' x = mem s x) \<and>
        (\<forall>xs. free_path (mem s) (HEAD s) xs \<and> unat block + 16 + unat cap \<le> 2 ^ 64 \<and>
              (\<forall>x \<in> set xs. unat x + 16 \<le> 2 ^ 64 \<and>
                 (x = block \<or> unat x + 16 \<le> unat block \<or> unat block + 16 + unat cap \<le> unat x))
            \<longrightarrow> free_path (mem s') (HEAD s') xs \<and> new_block \<notin> set xs)))"
proof -
  define sz where "sz = (scast isize :: 64 word)"
  define cap where "cap = get_size (mem s) block"
  define nb where "nb = block + sz + 16"
  define m1 where "m1 = store64 (mem s) nb (cap - sz - 16)"
  define m2 where "m2 = store64 m1 (nb + 8) (load64 m1 (block + 8))"
  define m3 where "m3 = store64 m2 block sz"
  define s' where "s' = s\<lparr>mem := m3\<rparr>"
  have szb: "unat sz < 2 ^ 31" unfolding sz_def by (rule scast_nonneg_small) fact
  have u16: "unat (sz + 16) = unat sz + 16" using unat_plus_small [of sz 16] szb by simp
  note cells = split_cells [OF szb nb_def m1_def m2_def m3_def]
  have small: "split s block isize = (NULL, s)" if "cap < sz + sizeof_free_block"
    using that by (simp add: split_def Let_def sz_def cap_def)
  have big: "split s block isize = (block, s')" if "\<not> cap < sz + sizeof_free_block"
    using that
    by (simp add: split_def Let_def sz_def cap_def nb_def m1_def m2_def m3_def s'_def hdr_defs)
  have fields: "HEAD s' = HEAD s" "brk s' = brk s" "brk_limit s' = brk_limit s" "mem s' = m3"
    by (simp_all add: s'_def)
  have lists: "free_path m3 (HEAD s) xs \<and> nb \<notin> set xs"
    if c: "\<not> cap < sz + sizeof_free_block"
      and p: "free_path (mem s) (HEAD s) xs" and i: "unat block + 16 + unat cap \<le> 2 ^ 64"
      and o: "\<forall>x \<in> set xs. unat x + 16 \<le> 2 ^ 64 \<and>
                 (x = block \<or> unat x + 16 \<le> unat block \<or> unat block + 16 + unat cap \<le> unat x)"
    for xs
  proof -
    from c have le: "unat sz + 16 \<le> unat cap"
      by (simp add: word_less_nat_alt sizeof_free_block_def u16)
    have "sz + 16 \<noteq> 0" using u16 by (auto simp add: unat_eq_0 [symmetric] simp del: unat_eq_0)
    then have bn: "block \<noteq> nb" by (simp add: nb_def add.assoc)
    have each: "get_next m3 x = get_next (mem s) x \<and> x \<noteq> nb" if "x \<in> set xs" for x
    proof (cases "x = block")
      case True
      with cells(2) bn show ?thesis by (simp add: get_next_def)
    next
      case False
      with o that have xo: "unat x + 16 \<le> unat block \<or> unat block + 16 + unat cap \<le> unat x"
        and xi: "unat x + 16 \<le> 2 ^ 64" by auto
      from split_other_link [OF le i xo xi nb_def m1_def m2_def m3_def]
      show ?thesis by (simp add: get_next_def)
    qed
    then have "free_path m3 (HEAD s) xs = free_path (mem s) (HEAD s) xs"
      by (intro free_path_cong) simp
    with p each show ?thesis by auto
  qed
  show ?thesis
    unfolding Let_def
  proof (intro conjI impI)
    assume "get_size (mem s) block < scast isize + sizeof_free_block"
    then show "split s block isize = (NULL, s)" using small by (simp add: sz_def cap_def)
  next
    assume "\<not> get_size (mem s) block < scast isize + sizeof_free_block"
    then have c: "\<not> cap < sz + sizeof_free_block" by (simp add: sz_def cap_def)
    have R: "split s block isize = (block, s') \<and>
        HEAD s' = HEAD s \<and> brk s' = brk s \<and> brk_limit s' = brk_limit s \<and>
        get_size (mem s') block = sz \<and>
        get_next (mem s') block = get_next (mem s) block \<and>
        get_size (mem s') nb = cap - sz - 16 \<and>
        get_next (mem s') nb = get_next (mem s) block \<and>
        (\<forall>x. \<not> x - block < 8 \<and> \<not> x - nb < 16 \<longrightarrow> mem s' x = mem s x) \<and>
        (\<forall>xs. free_path (mem s) (HEAD s) xs \<and> unat block + 16 + unat cap \<le> 2 ^ 64 \<and>
              (\<forall>x \<in> set xs. unat x + 16 \<le> 2 ^ 64 \<and>
                 (x = block \<or> unat x + 16 \<le> unat block \<or> unat block + 16 + unat cap \<le> unat x))
            \<longrightarrow> free_path (mem s') (HEAD s') xs \<and> nb \<notin> set xs)"
    proof (intro conjI allI impI)
      show "split s block isize = (block, s')" by (rule big [OF c])
      show "HEAD s' = HEAD s" "brk s' = brk s" "brk_limit s' = brk_limit s" by (fact fields)+
      show "get_size (mem s') block = sz" using cells(1) by (simp only: fields get_size_def)
      show "get_next (mem s') block = get_next (mem s) block"
        using cells(2) by (simp only: fields get_next_def)
      show "get_size (mem s') nb = cap - sz - 16" using cells(3) by (simp only: fields get_size_def)
      show "get_next (mem s') nb = get_next (mem s) block"
        using cells(4) by (simp only: fields get_next_def)
    next
      fix x assume "\<not> x - block < 8 \<and> \<not> x - nb < 16"
      with cells(5) have "m3 x = mem s x" by blast
      then show "mem s' x = mem s x" by (simp only: fields)
    next
      fix xs
      assume a: "free_path (mem s) (HEAD s) xs \<and> unat block + 16 + unat cap \<le> 2 ^ 64 \<and>
              (\<forall>x \<in> set xs. unat x + 16 \<le> 2 ^ 64 \<and>
                 (x = block \<or> unat x + 16 \<le> unat block \<or> unat block + 16 + unat cap \<le> unat x))"
      then have l: "free_path m3 (HEAD s) xs \<and> nb \<notin> set xs"
        by (intro lists [OF c]) simp_all
      from l show "free_path (mem s') (HEAD s') xs" by (simp only: fields)
      from l show "nb \<notin> set xs" by simp
    qed
    show "\<exists>s'. split s block isize = (block, s') \<and>
        HEAD s' = HEAD s \<and> brk s' = brk s \<and> brk_limit s' = brk_limit s \<and>
        get_size (mem s') block = scast isize \<and>
        get_next (mem s') block = get_next (mem s) block \<and>
        get_size (mem s') (block + scast isize + sizeof_free_block) =
          get_size (mem s) block - scast isize - sizeof_free_block \<and>
        get_next (mem s') (block + scast isize + sizeof_free_block) = get_next (mem s) block \<and>
        (\<forall>x. \<not> x - block < 8 \<and> \<not> x - (block + scast isize + sizeof_free_block) < 16
            \<longrightarrow> mem s' x = mem s x) \<and>
        (\<forall>xs. free_path (mem s) (HEAD s) xs \<and>
              unat block + 16 + unat (get_size (mem s) block) \<le> 2 ^ 64 \<and>
              (\<forall>x \<in> set xs. unat x + 16 \<le> 2 ^ 64 \<and>
                 (x = block \<or> unat x + 16 \<le> unat block \<or>
                  unat block + 16 + unat (get_size (mem s) block) \<le> unat x))
            \<longrightarrow> free_path (mem s') (HEAD s') xs \<and>
                block + scast isize + sizeof_free_block \<notin> set xs)"
      unfolding sizeof_free_block_def
      apply (rule exI [of _ s'])
      apply (rule R [unfolded sz_def cap_def nb_def])
      done
  qed
qed

text \<open>The heap \<open>big_free\<close> is what allocating 64 bytes on the fresh heap and releasing them
  again leaves: one free block at \<open>0x1000\<close> of capacity 64 with a null link, the break at
  \<open>0x1048\<close>.\<close>

lemma big_free_reached:
  "map_option (\<lambda>r. (HEAD (snd r), brk (snd r), get_size (mem (snd r)) 0x1000,
       get_next (mem (snd r)) 0x1000)) (run heap0 [Allocate 64, Release 0x1008])
     = Some (HEAD big_free, brk big_free, get_size (mem big_free) 0x1000,
         get_next (mem big_free) 0x1000)"
  by (simp add: heap0_def big_free_def eval_defs del: load64_store64_apart)

text \<open>
  Claim C5 says that \<open>split\<close> returns null on a block that is too small and otherwise
  shrinks the block to the target, creates the remainder block with the remaining
  capacity minus one header, and reinserts the remainder as a free block on the free
  list. The code does the first three and not the last: it sets the remainder's link to
  the block's link, as for an insertion behind the block, but never makes the block's
  link or the list head point at the remainder. On \<open>big_free\<close>, splitting the block at
  \<open>0x1000\<close> at 16 returns the block with recorded size 16 and leaves the remainder at
  \<open>0x1020\<close> with capacity 32, but the free list is still exactly the block at \<open>0x1000\<close>:
  the remainder is on no list.
\<close>

theorem split_remainder_not_listed:
  "fst (split big_free 0x1000 16) = 0x1000 \<and>
   get_size (mem (snd (split big_free 0x1000 16))) 0x1000 = 16 \<and>
   get_size (mem (snd (split big_free 0x1000 16))) 0x1020 = 32 \<and>
   free_path (mem (snd (split big_free 0x1000 16))) (HEAD (snd (split big_free 0x1000 16))) [0x1000] \<and>
   0x1020 \<notin> set [0x1000 :: addr]"
  by (simp add: split_def big_free_def Let_def hdr_defs load64_def store64_def)

end
